theory Spec2Isabelle
  imports Complex_Main
begin

section \<open>Strings\<close>

text \<open>
  The classifier of \<^verbatim>\<open>backend/app/category_classifier.py\<close> works on Python
  \<^verbatim>\<open>str\<close> values, which are sequences of Unicode code points. A string is
  modelled as the list of its code points; \<open>lit\<close> turns an ASCII literal into such
  a list.
\<close>

type_synonym str = "nat list"

definition lit :: "string \<Rightarrow> str" where
  "lit s = map of_char s"

text \<open>
  The characters matched by \<^verbatim>\<open>\s\<close> in a \<^verbatim>\<open>str\<close> pattern, which are also
  the characters removed by \<^verbatim>\<open>str.strip()\<close> and separating the words of
  \<^verbatim>\<open>str.split()\<close>: U+0009..U+000D, U+001C..U+0020, U+0085, U+00A0, U+1680,
  U+2000..U+200A, U+2028, U+2029, U+202F, U+205F and U+3000.
\<close>

definition is_space :: "nat \<Rightarrow> bool" where
  "is_space c \<longleftrightarrow>
     (9 \<le> c \<and> c \<le> 13) \<or> (28 \<le> c \<and> c \<le> 32) \<or> c = 133 \<or> c = 160 \<or> c = 5760 \<or>
     (8192 \<le> c \<and> c \<le> 8202) \<or> c = 8232 \<or> c = 8233 \<or> c = 8239 \<or> c = 8287 \<or> c = 12288"

text \<open>The character class \<^verbatim>\<open>[a-z0-9]\<close>.\<close>

definition is_lower_alnum :: "nat \<Rightarrow> bool" where
  "is_lower_alnum c \<longleftrightarrow> (97 \<le> c \<and> c \<le> 122) \<or> (48 \<le> c \<and> c \<le> 57)"

text \<open>
  \<^verbatim>\<open>str.lower()\<close>. The letters A..Z move to a..z. Outside ASCII exactly two code
  points have a lower-case form that contains an ASCII character: U+0130 becomes
  \<^verbatim>\<open>i\<close> followed by U+0307, and U+212A (the Kelvin sign) becomes \<^verbatim>\<open>k\<close>. Every
  other code point above U+007F is lower-cased to one code point above U+007F that
  is not a white-space character; the case table for those is not reproduced here,
  and they are left as they are. For \<open>clean_text\<close> below this makes no difference:
  such a character is outside \<^verbatim>\<open>[a-z0-9]\<close> before and after lower-casing, so
  the first substitution turns it into white space either way.
\<close>

definition lower_cp :: "nat \<Rightarrow> str" where
  "lower_cp c =
     (if 65 \<le> c \<and> c \<le> 90 then [c + 32]
      else if c = 304 then [105, 775]
      else if c = 8490 then [107]
      else [c])"

definition py_lower :: "str \<Rightarrow> str" where
  "py_lower s = concat (map lower_cp s)"

text \<open>\<^verbatim>\<open>re.sub(r"[^a-z0-9\s]", " ", text)\<close>\<close>

definition sub_non_alnum :: "str \<Rightarrow> str" where
  "sub_non_alnum s = map (\<lambda>c. if is_lower_alnum c \<or> is_space c then c else 32) s"

text \<open>
  \<^verbatim>\<open>re.sub(r"\s+", " ", text)\<close>: every maximal run of white space becomes one
  space. The flag says whether the previous character belonged to a run.
\<close>

fun collapse_ws :: "bool \<Rightarrow> str \<Rightarrow> str" where
  "collapse_ws in_run [] = []"
| "collapse_ws in_run (c # cs) =
     (if is_space c then (if in_run then collapse_ws True cs else 32 # collapse_ws True cs)
      else c # collapse_ws False cs)"

text \<open>\<^verbatim>\<open>str.strip()\<close>\<close>

definition strip :: "str \<Rightarrow> str" where
  "strip s = rev (dropWhile is_space (rev (dropWhile is_space s)))"

text \<open>\<^verbatim>\<open>str.split()\<close>: the maximal runs of characters that are not white space.\<close>

fun split_ws :: "str \<Rightarrow> str \<Rightarrow> str list" where
  "split_ws w [] = (if w = [] then [] else [w])"
| "split_ws w (c # cs) =
     (if is_space c then (if w = [] then split_ws [] cs else w # split_ws [] cs)
      else split_ws (w @ [c]) cs)"

definition py_split :: "str \<Rightarrow> str list" where
  "py_split s = split_ws [] s"

section \<open>Text cleaning and feature text\<close>

text \<open>\<^verbatim>\<open>CategoryClassifier._clean_text\<close>\<close>

definition clean_text :: "str \<Rightarrow> str" where
  "clean_text text =
     (if text = [] then []
      else strip (collapse_ws False (sub_non_alnum (py_lower text))))"

text \<open>
  \<^verbatim>\<open>CategoryClassifier._combine\<close>: the f-string \<^verbatim>\<open>f"{d} {d} {m}"\<close>, stripped.
\<close>

definition combine :: "str \<Rightarrow> str \<Rightarrow> str" where
  "combine description merchant =
     (let d = clean_text description; m = clean_text merchant
      in strip (d @ [32] @ d @ [32] @ m))"

text \<open>
  The feature text as the design document words it: the normalised description
  twice and the normalised merchant, joined by single spaces, then trimmed.
\<close>

fun space_join :: "str list \<Rightarrow> str" where
  "space_join [] = []"
| "space_join [x] = x"
| "space_join (x # y # zs) = x @ [32] @ space_join (y # zs)"

definition build_feature_text_spec :: "str \<Rightarrow> str \<Rightarrow> str" where
  "build_feature_text_spec description merchant =
     strip (space_join [clean_text description, clean_text description, clean_text merchant])"

text \<open>Predicates used to state the shape of cleaned text.\<close>

fun no_double_space :: "str \<Rightarrow> bool" where
  "no_double_space [] = True"
| "no_double_space [c] = True"
| "no_double_space (a # b # cs) = (\<not> (a = 32 \<and> b = 32) \<and> no_double_space (b # cs))"

definition normal_form :: "str \<Rightarrow> bool" where
  "normal_form s \<longleftrightarrow>
     list_all (\<lambda>c. is_lower_alnum c \<or> c = 32) s \<and> no_double_space s \<and>
     (s = [] \<or> (hd s \<noteq> 32 \<and> last s \<noteq> 32))"

text \<open>The ASCII punctuation characters.\<close>

definition is_punct :: "nat \<Rightarrow> bool" where
  "is_punct c \<longleftrightarrow>
     (33 \<le> c \<and> c \<le> 47) \<or> (58 \<le> c \<and> c \<le> 64) \<or> (91 \<le> c \<and> c \<le> 96) \<or> (123 \<le> c \<and> c \<le> 126)"

section \<open>The predictor\<close>

text \<open>
  Exceptions are values. \<open>RuntimeError\<close> is raised by the classifier itself when no
  pipeline is loaded and \<open>ValueError\<close> when the dataset lacks a column;
  \<open>ValueError\<close> and \<open>IndexError\<close> are also what numpy raises on an empty array
  and on an index out of range; \<open>AttributeError\<close> comes from calling a method on
  \<^verbatim>\<open>None\<close>, \<open>OSError\<close> from a failed file operation, and \<open>LibraryError\<close> stands for
  any exception raised inside the learning library.
\<close>

datatype error = RuntimeError | ValueError | IndexError | AttributeError | OSError | LibraryError

definition CONFIDENCE_THRESHOLD :: real where
  "CONFIDENCE_THRESHOLD = 0.40"

definition MIN_SAMPLES_PER_CLASS :: nat where
  "MIN_SAMPLES_PER_CLASS = 3"

definition N_TRAINING_ITERATIONS :: nat where
  "N_TRAINING_ITERATIONS = 5"

text \<open>The catch-all label \<^verbatim>\<open>"Other"\<close>.\<close>

definition OTHER :: str where
  "OTHER = lit ''Other''"

text \<open>
  The fitted scikit-learn pipeline is a library object. The classifier reads two
  things from it: the array \<^verbatim>\<open>classes_\<close> and the probability row
  \<^verbatim>\<open>predict_proba([text])[0]\<close>, a call that may raise. Probabilities are real
  numbers here; the rounding of the two floating-point products in \<open>predict\<close> is
  not modelled.
\<close>

record fitted_pipeline =
  classes :: "str list"
  predict_proba :: "str \<Rightarrow> error + real list"

text \<open>The state of a \<^verbatim>\<open>CategoryClassifier\<close>: \<^verbatim>\<open>self.pipeline\<close>, initially \<^verbatim>\<open>None\<close>.\<close>

record classifier =
  pipeline :: "fitted_pipeline option"

text \<open>\<^verbatim>\<open>np.max\<close> and \<^verbatim>\<open>np.argmax\<close>; the latter returns the first index of the maximum.\<close>

definition np_max :: "real list \<Rightarrow> error + real" where
  "np_max xs = (case xs of [] \<Rightarrow> Inl ValueError | x # ys \<Rightarrow> Inr (fold max ys x))"

definition np_argmax :: "real list \<Rightarrow> error + nat" where
  "np_argmax xs =
     (case np_max xs of
        Inl e \<Rightarrow> Inl e
      | Inr m \<Rightarrow> Inr (length (takeWhile (\<lambda>x. x \<noteq> m) xs)))"

text \<open>The penalty for ultra-short inputs in \<^verbatim>\<open>predict\<close>.\<close>

definition length_discount :: "nat \<Rightarrow> real \<Rightarrow> real" where
  "length_discount word_count confidence =
     (if word_count \<le> 1 then confidence * 0.7
      else if word_count = 2 then confidence * 0.85
      else confidence)"

text \<open>\<^verbatim>\<open>CategoryClassifier.predict\<close>\<close>

definition predict :: "classifier \<Rightarrow> str \<Rightarrow> str \<Rightarrow> error + (str \<times> real)" where
  "predict self description merchant =
     (case pipeline self of
        None \<Rightarrow> Inl RuntimeError
      | Some p \<Rightarrow>
          let text = combine description merchant in
          if text = [] then Inr (OTHER, 0)
          else
            (case predict_proba p text of
               Inl e \<Rightarrow> Inl e
             | Inr proba \<Rightarrow>
                 (case np_argmax proba of
                    Inl e \<Rightarrow> Inl e
                  | Inr i \<Rightarrow>
                      if length (classes p) \<le> i then Inl IndexError
                      else
                        (case np_max proba of
                           Inl e \<Rightarrow> Inl e
                         | Inr raw \<Rightarrow>
                             let pred = classes p ! i;
                                 word_count = length (py_split text);
                                 confidence = length_discount word_count raw
                             in if confidence < CONFIDENCE_THRESHOLD
                                then Inr (OTHER, confidence)
                                else Inr (pred, confidence)))))"

text \<open>\<^verbatim>\<open>CategoryClassifier.predict_simple\<close>\<close>

definition predict_simple :: "classifier \<Rightarrow> str \<Rightarrow> str \<Rightarrow> error + str" where
  "predict_simple self description merchant =
     (case predict self description merchant of Inl e \<Rightarrow> Inl e | Inr r \<Rightarrow> Inr (fst r))"

text \<open>
  \<^verbatim>\<open>np.argsort\<close>: the indices in ascending order of their values. Equal values
  are kept in index order here; numpy's default sort leaves their order open, and
  nothing below depends on it.
\<close>

definition np_argsort :: "real list \<Rightarrow> nat list" where
  "np_argsort xs = sort_key (\<lambda>i. xs ! i) [0..<length xs]"

text \<open>
  The slice \<^verbatim>\<open>a[start:]\<close>: a negative start counts from the end and is clipped
  at the first element, a start beyond the end gives the empty slice.
\<close>

definition slice_from :: "int \<Rightarrow> 'a list \<Rightarrow> 'a list" where
  "slice_from start xs =
     (let n = int (length xs);
          s = (if start < 0 then max 0 (n + start) else min start n)
      in drop (nat s) xs)"

text \<open>\<^verbatim>\<open>CategoryClassifier.get_top_predictions\<close>\<close>

definition get_top_predictions ::
  "classifier \<Rightarrow> str \<Rightarrow> str \<Rightarrow> int \<Rightarrow> error + (str \<times> real) list" where
  "get_top_predictions self description merchant top_n =
     (case pipeline self of
        None \<Rightarrow> Inl RuntimeError
      | Some p \<Rightarrow>
          let text = combine description merchant in
          if text = [] then Inr [(OTHER, 0)]
          else
            (case predict_proba p text of
               Inl e \<Rightarrow> Inl e
             | Inr proba \<Rightarrow>
                 let cls = classes p;
                     top_indices = rev (slice_from (- top_n) (np_argsort proba))
                 in if list_ex (\<lambda>i. length cls \<le> i) top_indices then Inl IndexError
                    else Inr (map (\<lambda>i. (cls ! i, proba ! i)) top_indices)))"

section \<open>Training\<close>

text \<open>
  A row of the dataset read by \<^verbatim>\<open>pd.read_csv\<close>; a missing cell is \<open>None\<close>.
  The fields carry the prefix \<open>r_\<close> because \<open>description\<close> and \<open>merchant\<close> are
  also the parameter names of \<open>combine\<close> and \<open>predict\<close>.
\<close>

record row =
  r_description :: "str option"
  r_merchant :: "str option"
  r_category :: "str option"

record dataframe =
  columns :: "str list"
  rows :: "row list"

text \<open>The dictionary handed to \<^verbatim>\<open>joblib.dump\<close>.\<close>

record artifact =
  art_pipeline :: fitted_pipeline
  art_accuracy :: real
  art_cv_score :: real

text \<open>A list of (feature text, category) pairs: the columns \<^verbatim>\<open>X\<close> and \<^verbatim>\<open>y\<close>.\<close>

type_synonym examples = "(str \<times> str) list"

text \<open>
  What \<^verbatim>\<open>_train_and_save\<close> calls outside the repository: reading the dataset,
  the stratified split, fitting the pipeline built with seed \<^verbatim>\<open>42 + iteration\<close>,
  the accuracy of a fitted pipeline on the held-out examples, the mean of the
  cross-validation scores of the pipeline with that seed, and writing the
  artifact. Each call that can raise returns an error instead.
\<close>

record env =
  read_csv :: "error + dataframe"
  train_test_split :: "examples \<Rightarrow> error + (examples \<times> examples)"
  fit :: "nat \<Rightarrow> examples \<Rightarrow> error + fitted_pipeline"
  accuracy_score :: "fitted_pipeline \<Rightarrow> examples \<Rightarrow> real"
  cross_val_score :: "nat \<Rightarrow> examples \<Rightarrow> error + real"
  joblib_dump :: "artifact \<Rightarrow> error option"

text \<open>\<^verbatim>\<open>.fillna("")\<close> and \<^verbatim>\<open>.astype(str)\<close>, which renders a missing cell as \<^verbatim>\<open>nan\<close>.\<close>

definition fillna :: "str option \<Rightarrow> str" where
  "fillna cell = (case cell of None \<Rightarrow> [] | Some s \<Rightarrow> s)"

definition astype_str :: "str option \<Rightarrow> str" where
  "astype_str cell = (case cell of None \<Rightarrow> lit ''nan'' | Some s \<Rightarrow> s)"

text \<open>
  The data preparation of \<^verbatim>\<open>_train_and_save\<close>: the feature text of every row,
  the rows with empty feature text dropped, then the rows of every category with
  fewer than \<open>MIN_SAMPLES_PER_CLASS\<close> remaining rows dropped.
\<close>

definition prepare :: "row list \<Rightarrow> examples" where
  "prepare rs =
     (let df = map (\<lambda>r. (combine (fillna (r_description r)) (fillna (r_merchant r)),
                          strip (astype_str (r_category r)))) rs;
          df = filter (\<lambda>e. fst e \<noteq> []) df;
          counts = (\<lambda>c. count_list (map snd df) c)
      in filter (\<lambda>e. MIN_SAMPLES_PER_CLASS \<le> counts (snd e)) df)"

text \<open>
  The loop over \<^verbatim>\<open>range(N_TRAINING_ITERATIONS)\<close>, carrying
  \<^verbatim>\<open>(best_pipeline, best_accuracy, best_cv_score)\<close>.
\<close>

fun train_loop ::
  "env \<Rightarrow> examples \<Rightarrow> examples \<Rightarrow> nat list \<Rightarrow> fitted_pipeline option \<times> real \<times> real \<Rightarrow>
   error + (fitted_pipeline option \<times> real \<times> real)" where
  "train_loop env tr te [] best = Inr best"
| "train_loop env tr te (iteration # rest) (best_pipeline, best_accuracy, best_cv_score) =
     (case fit env (42 + iteration) tr of
        Inl e \<Rightarrow> Inl e
      | Inr p \<Rightarrow>
          let test_acc = accuracy_score env p te in
          (case cross_val_score env (42 + iteration) tr of
             Inl e \<Rightarrow> Inl e
           | Inr cv_mean \<Rightarrow>
               if cv_mean > best_cv_score
               then train_loop env tr te rest (Some p, test_acc, cv_mean)
               else train_loop env tr te rest (best_pipeline, best_accuracy, best_cv_score)))"

text \<open>
  \<^verbatim>\<open>CategoryClassifier._train_and_save\<close>. The result is the classifier state when
  the method ends, and the exception that ended it, if any. The only assignment
  to \<^verbatim>\<open>self.pipeline\<close> is the last statement but one, after \<^verbatim>\<open>joblib.dump\<close>.
\<close>

definition train_and_save :: "env \<Rightarrow> classifier \<Rightarrow> classifier \<times> error option" where
  "train_and_save env self =
     (case read_csv env of
        Inl e \<Rightarrow> (self, Some e)
      | Inr df \<Rightarrow>
          if \<not> list_all (\<lambda>c. c \<in> set (columns df))
                 [lit ''description'', lit ''merchant'', lit ''category'']
          then (self, Some ValueError)
          else
            (case train_test_split env (prepare (rows df)) of
               Inl e \<Rightarrow> (self, Some e)
             | Inr (tr, te) \<Rightarrow>
                 (case train_loop env tr te [0..<N_TRAINING_ITERATIONS] (None, 0, 0) of
                    Inl e \<Rightarrow> (self, Some e)
                  | Inr (best_pipeline, best_accuracy, best_cv_score) \<Rightarrow>
                      (case best_pipeline of
                         None \<Rightarrow> (self, Some AttributeError)
                       | Some bp \<Rightarrow>
                           (case joblib_dump env \<lparr>art_pipeline = bp, art_accuracy = best_accuracy,
                                                  art_cv_score = best_cv_score\<rparr> of
                              Some e \<Rightarrow> (self, Some e)
                            | None \<Rightarrow> (self\<lparr>pipeline := Some bp\<rparr>, None))))))"

section \<open>Example data\<close>

text \<open>Four fitted pipelines over the same classes, and one over two classes.\<close>

definition demo_pipeline :: fitted_pipeline where
  "demo_pipeline =
     \<lparr>classes = [lit ''Food'', lit ''Rent'', lit ''Travel''],
      predict_proba = (\<lambda>t. Inr [0.33, 0.35, 0.32])\<rparr>"

definition sure_pipeline :: fitted_pipeline where
  "sure_pipeline =
     \<lparr>classes = [lit ''Food'', lit ''Rent'', lit ''Travel''],
      predict_proba = (\<lambda>t. Inr [0.1, 0.8, 0.1])\<rparr>"

definition failing_pipeline :: fitted_pipeline where
  "failing_pipeline =
     \<lparr>classes = [lit ''Food'', lit ''Rent'', lit ''Travel''],
      predict_proba = (\<lambda>t. Inl LibraryError)\<rparr>"

definition even_pipeline :: fitted_pipeline where
  "even_pipeline =
     \<lparr>classes = [lit ''Food'', lit ''Rent'', lit ''Travel''],
      predict_proba = (\<lambda>t. Inr [0.2, 0.5, 0.3])\<rparr>"

definition two_class_pipeline :: fitted_pipeline where
  "two_class_pipeline =
     \<lparr>classes = [lit ''Food'', lit ''Rent''],
      predict_proba = (\<lambda>t. Inr [0.6, 0.4])\<rparr>"

text \<open>
  A dataset of seven rows for each of two categories, one row of a third
  category and one row without usable text.
\<close>

definition food_row :: row where
  "food_row = \<lparr>r_description = Some (lit ''Coffee''), r_merchant = Some (lit ''Cafe''),
                r_category = Some (lit ''Food '')\<rparr>"

definition rent_row :: row where
  "rent_row = \<lparr>r_description = Some (lit ''rent''), r_merchant = None,
                r_category = Some (lit ''Rent'')\<rparr>"

definition demo_frame :: dataframe where
  "demo_frame =
     \<lparr>columns = [lit ''description'', lit ''merchant'', lit ''category''],
      rows = [food_row, rent_row, food_row, rent_row, food_row, rent_row, food_row, rent_row,
              food_row, rent_row, food_row, rent_row, food_row, rent_row,
              \<lparr>r_description = Some (lit ''taxi''), r_merchant = Some (lit ''Uber''),
               r_category = Some (lit ''Travel'')\<rparr>,
              \<lparr>r_description = Some (lit ''!!!''), r_merchant = None,
               r_category = Some (lit ''Food'')\<rparr>]\<rparr>"

definition food_example :: "str \<times> str" where
  "food_example = (lit ''coffee coffee cafe'', lit ''Food'')"

definition rent_example :: "str \<times> str" where
  "rent_example = (lit ''rent rent'', lit ''Rent'')"

definition travel_example :: "str \<times> str" where
  "travel_example = (lit ''taxi taxi uber'', lit ''Travel'')"

text \<open>The prepared examples of \<open>demo_frame\<close>, and their split.\<close>

definition demo_examples :: examples where
  "demo_examples =
     [food_example, rent_example, food_example, rent_example, food_example, rent_example,
      food_example, rent_example, food_example, rent_example, food_example, rent_example,
      food_example, rent_example]"

definition demo_test :: examples where
  "demo_test = [food_example, rent_example, food_example]"

definition demo_train :: examples where
  "demo_train =
     [rent_example, food_example, rent_example, food_example, rent_example, food_example,
      rent_example, food_example, rent_example, food_example, rent_example]"

text \<open>
  An environment in which every library call succeeds: the split holds out the
  first three examples, every fit returns \<open>two_class_pipeline\<close> with cross-validation
  mean 0.8 and held-out accuracy 0.9, and writing the artifact succeeds exactly
  when the disk is writable.
\<close>

definition demo_env :: "bool \<Rightarrow> env" where
  "demo_env disk_writable =
     \<lparr>read_csv = Inr demo_frame,
      train_test_split = (\<lambda>d. if d = [] then Inl ValueError else Inr (drop 3 d, take 3 d)),
      fit = (\<lambda>seed tr. Inr two_class_pipeline),
      accuracy_score = (\<lambda>p te. 0.9),
      cross_val_score = (\<lambda>seed tr. Inr 0.8),
      joblib_dump = (\<lambda>a. if disk_writable then None else Some OSError)\<rparr>"

section \<open>Properties of the string functions\<close>

lemma is_space_32: "is_space 32"
  by (simp add: is_space_def)

lemma alnum_not_space: "is_lower_alnum c \<Longrightarrow> \<not> is_space c"
  by (auto simp: is_lower_alnum_def is_space_def)

lemma sub_non_alnum_chars: "c \<in> set (sub_non_alnum s) \<Longrightarrow> is_lower_alnum c \<or> is_space c"
  by (auto simp: sub_non_alnum_def is_space_32 split: if_splits)

lemma collapse_ws_chars:
  "\<forall>c \<in> set s. is_lower_alnum c \<or> is_space c \<Longrightarrow> c \<in> set (collapse_ws b s) \<Longrightarrow> is_lower_alnum c \<or> c = 32"
  by (induction s arbitrary: b) (auto split: if_splits)

lemma collapse_ws_hd:
  "collapse_ws True s \<noteq> [] \<Longrightarrow> hd (collapse_ws True s) \<noteq> 32"
  by (induction s) (auto simp: is_space_32 split: if_splits)

lemma nds_Cons: "no_double_space xs \<Longrightarrow> (xs \<noteq> [] \<Longrightarrow> \<not> (a = 32 \<and> hd xs = 32)) \<Longrightarrow> no_double_space (a # xs)"
  by (cases xs) auto

lemma collapse_ws_nds: "no_double_space (collapse_ws b s)"
proof (induction s arbitrary: b)
  case Nil
  show ?case by simp
next
  case (Cons c cs)
  show ?case
  proof (cases "is_space c")
    case True
    have "no_double_space (32 # collapse_ws True cs)"
      using Cons.IH [of True] collapse_ws_hd [of cs] by (intro nds_Cons) auto
    with True Cons.IH [of True] show ?thesis by simp
  next
    case False
    then have "c \<noteq> 32" using is_space_32 by auto
    then have "no_double_space (c # collapse_ws False cs)"
      using Cons.IH [of False] by (intro nds_Cons) auto
    with False show ?thesis by simp
  qed
qed

lemma nds_tl: "no_double_space (a # xs) \<Longrightarrow> no_double_space xs"
  by (cases xs) auto

lemma nds_dropWhile: "no_double_space s \<Longrightarrow> no_double_space (dropWhile P s)"
  by (induction s) (auto dest: nds_tl)

lemma nds_append_left: "no_double_space (xs @ ys) \<Longrightarrow> no_double_space xs"
  by (induction xs rule: no_double_space.induct) auto

lemma rev_dropWhile_rev_prefix: "s = rev (dropWhile P (rev s)) @ rev (takeWhile P (rev s))"
proof -
  have "rev (dropWhile P (rev s)) @ rev (takeWhile P (rev s)) =
        rev (takeWhile P (rev s) @ dropWhile P (rev s))"
    by (simp only: rev_append)
  also have "\<dots> = rev (rev s)" by (simp only: takeWhile_dropWhile_id)
  finally show ?thesis by simp
qed

lemma nds_strip: "no_double_space s \<Longrightarrow> no_double_space (strip s)"
  unfolding strip_def
  using rev_dropWhile_rev_prefix [of "dropWhile is_space s" is_space] nds_append_left nds_dropWhile
  by metis

lemma set_strip: "set (strip s) \<subseteq> set s"
proof
  fix c assume "c \<in> set (strip s)"
  then have "c \<in> set (dropWhile is_space (rev (dropWhile is_space s)))"
    by (simp add: strip_def)
  then have "c \<in> set (rev (dropWhile is_space s))" by (rule set_dropWhileD)
  then have "c \<in> set (dropWhile is_space s)" by simp
  then show "c \<in> set s" by (rule set_dropWhileD)
qed

lemma strip_hd: "strip s \<noteq> [] \<Longrightarrow> \<not> is_space (hd (strip s))"
proof -
  assume ne: "strip s \<noteq> []"
  let ?d = "dropWhile is_space s"
  have eq: "?d = strip s @ rev (takeWhile is_space (rev ?d))"
    unfolding strip_def by (rule rev_dropWhile_rev_prefix)
  then have "hd ?d = hd (strip s)" using ne by (metis hd_append2)
  moreover have "?d \<noteq> []" using eq ne by (metis Nil_is_append_conv)
  ultimately show ?thesis using hd_dropWhile [of is_space s] by auto
qed

lemma strip_last: "strip s \<noteq> [] \<Longrightarrow> \<not> is_space (last (strip s))"
proof -
  assume ne: "strip s \<noteq> []"
  let ?r = "dropWhile is_space (rev (dropWhile is_space s))"
  have "?r \<noteq> []" using ne by (simp add: strip_def)
  then have "\<not> is_space (hd ?r)" by (rule hd_dropWhile)
  moreover have "last (strip s) = hd ?r" using \<open>?r \<noteq> []\<close> by (simp add: strip_def last_rev)
  ultimately show ?thesis by simp
qed

lemma clean_text_normal_form: "normal_form (clean_text x)"
proof (cases "x = []")
  case True
  then show ?thesis by (simp add: clean_text_def normal_form_def)
next
  case False
  let ?c = "collapse_ws False (sub_non_alnum (py_lower x))"
  have chars: "\<forall>c \<in> set ?c. is_lower_alnum c \<or> c = 32"
    using collapse_ws_chars sub_non_alnum_chars by blast
  have 1: "list_all (\<lambda>c. is_lower_alnum c \<or> c = 32) (strip ?c)"
    using chars set_strip [of ?c] by (auto simp: list_all_iff)
  have 2: "no_double_space (strip ?c)" by (rule nds_strip) (rule collapse_ws_nds)
  have 3: "strip ?c = [] \<or> (hd (strip ?c) \<noteq> 32 \<and> last (strip ?c) \<noteq> 32)"
    using strip_hd [of ?c] strip_last [of ?c] is_space_32 by metis
  from 1 2 3 False show ?thesis by (simp add: clean_text_def normal_form_def)
qed

lemma lower_cp_fixed: "is_lower_alnum c \<or> c = 32 \<Longrightarrow> lower_cp c = [c]"
  by (auto simp: lower_cp_def is_lower_alnum_def)

lemma py_lower_fixed: "list_all (\<lambda>c. is_lower_alnum c \<or> c = 32) s \<Longrightarrow> py_lower s = s"
  by (induction s) (auto simp: py_lower_def lower_cp_fixed)

lemma sub_non_alnum_fixed: "list_all (\<lambda>c. is_lower_alnum c \<or> c = 32) s \<Longrightarrow> sub_non_alnum s = s"
  by (induction s) (auto simp: sub_non_alnum_def is_space_32)

lemma collapse_ws_fixed:
  "list_all (\<lambda>c. is_lower_alnum c \<or> c = 32) s \<Longrightarrow> no_double_space s \<Longrightarrow>
   (b \<Longrightarrow> s = [] \<or> hd s \<noteq> 32) \<Longrightarrow> collapse_ws b s = s"
proof (induction s arbitrary: b)
  case Nil
  show ?case by simp
next
  case (Cons c cs)
  have tl: "list_all (\<lambda>c. is_lower_alnum c \<or> c = 32) cs" "no_double_space cs"
    using Cons.prems(1,2) by (auto dest: nds_tl)
  show ?case
  proof (cases "c = 32")
    case True
    then have nb: "\<not> b" using Cons.prems(3) by auto
    have "cs = [] \<or> hd cs \<noteq> 32" using Cons.prems(2) True by (cases cs) auto
    then have "collapse_ws True cs = cs" using Cons.IH [of True] tl by blast
    with True nb show ?thesis by (simp add: is_space_32)
  next
    case False
    then have "is_lower_alnum c" using Cons.prems(1) by simp
    then have ns: "\<not> is_space c" by (rule alnum_not_space)
    have "collapse_ws False cs = cs" using Cons.IH [of False] tl by blast
    with ns show ?thesis by simp
  qed
qed

lemma is_space_clean: "is_lower_alnum c \<or> c = 32 \<Longrightarrow> is_space c \<longleftrightarrow> c = 32"
  using alnum_not_space is_space_32 by auto

lemma dropWhile_hd_id: "s = [] \<or> \<not> P (hd s) \<Longrightarrow> dropWhile P s = s"
  by (cases s) auto

lemma strip_fixed:
  assumes "s = [] \<or> (\<not> is_space (hd s) \<and> \<not> is_space (last s))"
  shows "strip s = s"
proof (cases "s = []")
  case True
  then show ?thesis by (simp add: strip_def)
next
  case False
  with assms have h: "\<not> is_space (hd s)" and l: "\<not> is_space (last s)" by auto
  have 1: "dropWhile is_space s = s" using h by (intro dropWhile_hd_id) simp
  have "hd (rev s) = last s" using False by (simp add: hd_rev)
  then have 2: "dropWhile is_space (rev s) = rev s" using l by (intro dropWhile_hd_id) simp
  show ?thesis by (simp add: strip_def 1 2)
qed

lemma normal_form_fixed: "normal_form s \<Longrightarrow> clean_text s = s"
proof -
  assume nf: "normal_form s"
  then have chars: "list_all (\<lambda>c. is_lower_alnum c \<or> c = 32) s"
    and nds: "no_double_space s"
    and ends: "s = [] \<or> (hd s \<noteq> 32 \<and> last s \<noteq> 32)"
    by (auto simp: normal_form_def)
  show ?thesis
  proof (cases "s = []")
    case True
    then show ?thesis by (simp add: clean_text_def)
  next
    case False
    then have "hd s \<in> set s" "last s \<in> set s" by auto
    then have "is_lower_alnum (hd s) \<or> hd s = 32" "is_lower_alnum (last s) \<or> last s = 32"
      using chars by (auto simp: list_all_iff)
    then have e: "\<not> is_space (hd s) \<and> \<not> is_space (last s)"
      using ends False is_space_clean by blast
    have c: "collapse_ws False s = s" using chars nds by (intro collapse_ws_fixed) auto
    show ?thesis
      using False by (simp add: clean_text_def py_lower_fixed [OF chars] sub_non_alnum_fixed [OF chars] c strip_fixed e)
  qed
qed

lemma collapse_ws_spaces:
  "list_all is_space s \<Longrightarrow> list_all is_space (collapse_ws b s)"
  by (induction s arbitrary: b) (auto simp: is_space_32)

lemma strip_spaces: "list_all is_space s \<Longrightarrow> strip s = []"
proof -
  assume "list_all is_space s"
  then have d: "dropWhile is_space s = []" by (induction s) auto
  show ?thesis by (simp only: strip_def d rev.simps dropWhile.simps)
qed

lemma clean_text_no_alnum:
  assumes "\<forall>c \<in> set x. \<forall>d \<in> set (lower_cp c). \<not> is_lower_alnum d"
  shows "clean_text x = []"
proof -
  have "\<forall>d \<in> set (py_lower x). \<not> is_lower_alnum d"
    using assms by (auto simp: py_lower_def)
  then have "list_all is_space (sub_non_alnum (py_lower x))"
    by (auto simp: sub_non_alnum_def list_all_iff is_space_32)
  then have "strip (collapse_ws False (sub_non_alnum (py_lower x))) = []"
    by (intro strip_spaces collapse_ws_spaces)
  then show ?thesis by (simp add: clean_text_def)
qed

lemma is_punct_lower: "is_punct c \<Longrightarrow> d \<in> set (lower_cp c) \<Longrightarrow> \<not> is_lower_alnum d"
  by (auto simp: is_punct_def lower_cp_def is_lower_alnum_def split: if_splits)

lemma nds_index: "no_double_space s \<Longrightarrow> Suc i < length s \<Longrightarrow> \<not> (s ! i = 32 \<and> s ! Suc i = 32)"
proof (induction s arbitrary: i rule: no_double_space.induct)
  case 1
  then show ?case by simp
next
  case (2 c)
  then show ?case by simp
next
  case (3 a b cs)
  show ?case
  proof (cases i)
    case 0
    with 3 show ?thesis by auto
  next
    case (Suc j)
    with 3 show ?thesis by auto
  qed
qed

section \<open>Properties of the predictor\<close>

lemmas text_defs = combine_def clean_text_def lit_def py_lower_def lower_cp_def sub_non_alnum_def is_space_def is_lower_alnum_def strip_def

lemma np_max_eq: "xs \<noteq> [] \<Longrightarrow> np_max xs = Inr (Max (set xs))"
proof (cases xs)
  case Nil
  assume "xs \<noteq> []"
  with Nil show ?thesis by simp
next
  case (Cons a l)
  have "fold max l a = Max (set (a # l))" by (simp only: Max.set_eq_fold)
  with Cons show ?thesis by (simp add: np_max_def)
qed

lemma first_index:
  "m \<in> set xs \<Longrightarrow>
   length (takeWhile (\<lambda>x. x \<noteq> m) xs) < length xs \<and>
   xs ! length (takeWhile (\<lambda>x. x \<noteq> m) xs) = m \<and>
   (\<forall>j < length (takeWhile (\<lambda>x. x \<noteq> m) xs). xs ! j \<noteq> m)"
proof (induction xs)
  case Nil
  then show ?case by simp
next
  case (Cons a xs)
  show ?case
  proof (cases "a = m")
    case True
    then show ?thesis by simp
  next
    case False
    with Cons.prems have "m \<in> set xs" by simp
    from Cons.IH [OF this] False show ?thesis by (auto simp: nth_Cons split: nat.splits)
  qed
qed

lemma np_argmax_eq:
  assumes "xs \<noteq> []"
  shows "\<exists>i. np_argmax xs = Inr i \<and> i < length xs \<and> xs ! i = Max (set xs) \<and>
             (\<forall>j < i. xs ! j < Max (set xs))"
proof -
  let ?m = "Max (set xs)"
  let ?i = "length (takeWhile (\<lambda>x. x \<noteq> ?m) xs)"
  have mem: "?m \<in> set xs" using assms by (intro Max_in) auto
  have a: "np_argmax xs = Inr ?i" using assms by (simp add: np_argmax_def np_max_eq)
  have f: "?i < length xs \<and> xs ! ?i = ?m \<and> (\<forall>j < ?i. xs ! j \<noteq> ?m)"
    using first_index [OF mem] .
  have "\<forall>j < ?i. xs ! j < ?m"
  proof (intro allI impI)
    fix j assume j: "j < ?i"
    then have "j < length xs" using f by linarith
    then have "xs ! j \<le> ?m" by (intro Max_ge) auto
    moreover have "xs ! j \<noteq> ?m" using f j by blast
    ultimately show "xs ! j < ?m" by linarith
  qed
  with a f show ?thesis by blast
qed

lemma split_ws_nonempty:
  "w \<noteq> [] \<or> (\<exists>c \<in> set s. \<not> is_space c) \<Longrightarrow> 1 \<le> length (split_ws w s)"
  by (induction s arbitrary: w) auto

lemma combine_tokens: "combine d m \<noteq> [] \<Longrightarrow> 1 \<le> length (py_split (combine d m))"
proof -
  assume ne: "combine d m \<noteq> []"
  let ?s = "clean_text d @ [32] @ clean_text d @ [32] @ clean_text m"
  have c: "combine d m = strip ?s" by (simp add: combine_def Let_def)
  then have "\<not> is_space (hd (combine d m))" using ne strip_hd [of ?s] by simp
  moreover have "hd (combine d m) \<in> set (combine d m)" using ne by simp
  ultimately have "\<exists>c \<in> set (combine d m). \<not> is_space c" by blast
  then show ?thesis unfolding py_split_def by (intro split_ws_nonempty) simp
qed

lemma predict_unfold:
  assumes "pipeline self = Some p" and "combine d m \<noteq> []"
    and "predict_proba p (combine d m) = Inr proba"
    and "np_argmax proba = Inr i" and "i < length (classes p)" and "np_max proba = Inr raw"
  shows "predict self d m =
           (if length_discount (length (py_split (combine d m))) raw < CONFIDENCE_THRESHOLD
            then Inr (OTHER, length_discount (length (py_split (combine d m))) raw)
            else Inr (classes p ! i, length_discount (length (py_split (combine d m))) raw))"
  using assms by (simp add: predict_def Let_def)

lemma predict_cases:
  assumes "pipeline self = Some p" and "predict self d m = Inr (label, conf)"
  shows "(combine d m = [] \<and> label = OTHER \<and> conf = 0) \<or>
         (combine d m \<noteq> [] \<and>
          (\<exists>proba i raw. predict_proba p (combine d m) = Inr proba \<and> np_argmax proba = Inr i \<and>
             i < length (classes p) \<and> np_max proba = Inr raw \<and>
             conf = length_discount (length (py_split (combine d m))) raw \<and>
             (if conf < CONFIDENCE_THRESHOLD then label = OTHER else label = classes p ! i)))"
  using assms
  by (auto simp: predict_def Let_def split: sum.splits if_splits)

lemma predict_wf:
  assumes p: "pipeline self = Some p" and ne: "combine d m \<noteq> []"
    and pr: "predict_proba p (combine d m) = Inr proba"
    and len: "length proba = length (classes p)" and cls: "classes p \<noteq> []"
  shows "\<exists>i. i < length proba \<and> proba ! i = Max (set proba) \<and> (\<forall>j < i. proba ! j < Max (set proba)) \<and>
           predict self d m =
             (if length_discount (length (py_split (combine d m))) (Max (set proba)) < CONFIDENCE_THRESHOLD
              then Inr (OTHER, length_discount (length (py_split (combine d m))) (Max (set proba)))
              else Inr (classes p ! i, length_discount (length (py_split (combine d m))) (Max (set proba))))"
proof -
  have pne: "proba \<noteq> []" using len cls by auto
  from np_argmax_eq [OF pne] obtain i where
    i: "np_argmax proba = Inr i" "i < length proba" "proba ! i = Max (set proba)"
       "\<forall>j < i. proba ! j < Max (set proba)" by blast
  have il: "i < length (classes p)" using i(2) len by simp
  from predict_unfold [OF p ne pr i(1) il np_max_eq [OF pne]] i show ?thesis by blast
qed

lemma demo_text: "combine (lit ''coffee'') (lit ''Starbucks'') = lit ''coffee coffee starbucks''"
  by (simp add: text_defs)

lemma demo_tokens: "length (py_split (lit ''coffee coffee starbucks'')) = 3"
  by (simp add: py_split_def lit_def is_space_def)

lemma one_token: "combine [] (lit ''Uber'') = lit ''uber'' \<and> length (py_split (lit ''uber'')) = 1"
  by (simp add: text_defs py_split_def)

lemma two_tokens: "combine (lit ''Rent'') [] = lit ''rent rent'' \<and> length (py_split (lit ''rent rent'')) = 2"
  by (simp add: text_defs py_split_def)

lemma np_argsort_set: "set (np_argsort xs) = {0..<length xs}"
  by (simp add: np_argsort_def)

lemma np_argsort_length: "length (np_argsort xs) = length xs"
  by (simp add: np_argsort_def)

lemma np_argsort_distinct: "distinct (np_argsort xs)"
  by (simp add: np_argsort_def)

lemma np_argsort_sorted: "sorted (map (\<lambda>i. xs ! i) (np_argsort xs))"
  by (simp add: np_argsort_def)

lemma slice_from_neg: "1 \<le> k \<Longrightarrow> slice_from (- k) ys = drop (length ys - nat k) ys"
  by (auto simp: slice_from_def Let_def max_def nat_diff_distrib' intro: arg_cong [where f = "\<lambda>n. drop n ys"])

lemma top_indices_props:
  fixes xs :: "real list"
  assumes "1 \<le> k" and idx_def: "idx = rev (slice_from (- k) (np_argsort xs))"
  shows "length idx = min (nat k) (length xs)" and "distinct idx"
    and "\<forall>i \<in> set idx. i < length xs"
    and "sorted_wrt (\<ge>) (map (\<lambda>i. xs ! i) idx)"
proof -
  let ?d = "drop (length xs - nat k) (np_argsort xs)"
  have idx: "idx = rev ?d"
    using assms(1) by (simp add: idx_def slice_from_neg np_argsort_length)
  show "length idx = min (nat k) (length xs)"
    using assms(1) by (simp add: idx np_argsort_length min_def)
  show "distinct idx" by (simp add: idx np_argsort_distinct)
  have "set ?d \<subseteq> set (np_argsort xs)" by (rule set_drop_subset)
  then show "\<forall>i \<in> set idx. i < length xs" by (auto simp: idx np_argsort_set)
  have "sorted (drop (length xs - nat k) (map (\<lambda>i. xs ! i) (np_argsort xs)))"
    using np_argsort_sorted by (rule sorted_wrt_drop)
  then have "sorted (map (\<lambda>i. xs ! i) ?d)" by (simp add: drop_map)
  then have "sorted_wrt (\<ge>) (rev (map (\<lambda>i. xs ! i) ?d))"
    by (simp add: sorted_wrt_rev)
  then show "sorted_wrt (\<ge>) (map (\<lambda>i. xs ! i) idx)" by (simp add: idx rev_map)
qed

section \<open>The example dataset\<close>

lemma food_text: "combine (lit ''Coffee'') (lit ''Cafe'') = lit ''coffee coffee cafe''"
  by (simp add: text_defs)

lemma rent_text: "combine (lit ''rent'') [] = lit ''rent rent''"
  by (simp add: text_defs)

lemma taxi_text: "combine (lit ''taxi'') (lit ''Uber'') = lit ''taxi taxi uber''"
  by (simp add: text_defs)

lemma bang_text: "combine (lit ''!!!'') [] = []"
  by (simp add: text_defs)

lemma food_label: "strip (lit ''Food '') = lit ''Food''"
  by (simp add: strip_def lit_def is_space_def)

lemma plain_labels:
  "strip (lit ''Rent'') = lit ''Rent''" "strip (lit ''Travel'') = lit ''Travel''"
  "strip (lit ''Food'') = lit ''Food''"
  by (simp_all add: strip_def lit_def is_space_def)

lemma prep_food:
  "(combine (fillna (r_description food_row)) (fillna (r_merchant food_row)),
    strip (astype_str (r_category food_row))) = food_example"
  by (simp add: food_row_def fillna_def astype_str_def food_text food_label food_example_def)

lemma prep_rent:
  "(combine (fillna (r_description rent_row)) (fillna (r_merchant rent_row)),
    strip (astype_str (r_category rent_row))) = rent_example"
  by (simp add: rent_row_def fillna_def astype_str_def rent_text plain_labels rent_example_def)

lemma example_texts:
  "fst food_example \<noteq> []" "fst rent_example \<noteq> []" "fst travel_example \<noteq> []"
  by (simp_all add: food_example_def rent_example_def travel_example_def lit_def)

lemma demo_prepare: "prepare (rows demo_frame) = demo_examples"
proof -
  let ?f = "\<lambda>r. (combine (fillna (r_description r)) (fillna (r_merchant r)),
                          strip (astype_str (r_category r)))"
  let ?more = "[food_example, rent_example, food_example, rent_example, food_example, rent_example,
      food_example, rent_example, food_example, rent_example, food_example, rent_example,
      food_example, rent_example, travel_example]"
  have t: "?f \<lparr>r_description = Some (lit ''taxi''), r_merchant = Some (lit ''Uber''),
               r_category = Some (lit ''Travel'')\<rparr> = travel_example"
    by (simp add: fillna_def astype_str_def taxi_text plain_labels travel_example_def)
  have b: "fst (?f \<lparr>r_description = Some (lit ''!!!''), r_merchant = None,
               r_category = Some (lit ''Food'')\<rparr>) = []"
    by (simp add: fillna_def bang_text)
  have m: "filter (\<lambda>e. fst e \<noteq> []) (map ?f (rows demo_frame)) = ?more"
    unfolding demo_frame_def
    by (simp only: dataframe.simps list.map prep_food prep_rent t filter.simps b example_texts
        if_True if_False not_True_eq_False not_False_eq_True simp_thms)
  have c: "count_list (map snd ?more) (snd food_example) = 7"
    "count_list (map snd ?more) (snd rent_example) = 7"
    "count_list (map snd ?more) (snd travel_example) = 1"
    by (simp_all add: food_example_def rent_example_def travel_example_def lit_def)
  have f: "filter (\<lambda>e. MIN_SAMPLES_PER_CLASS \<le> count_list (map snd ?more) (snd e)) ?more =
             demo_examples"
    unfolding demo_examples_def
    by (simp only: filter.simps c MIN_SAMPLES_PER_CLASS_def) simp
  show ?thesis
    unfolding prepare_def Let_def m by (rule f)
qed

lemma demo_cols:
  "list_all (\<lambda>c. c \<in> set (columns demo_frame)) [lit ''description'', lit ''merchant'', lit ''category'']"
  by (simp add: demo_frame_def)

lemma demo_read: "read_csv (demo_env w) = Inr demo_frame"
  by (simp add: demo_env_def)

lemma demo_split:
  "train_test_split (demo_env w) (prepare (rows demo_frame)) = Inr (demo_train, demo_test)"
  unfolding demo_prepare
  by (simp add: demo_env_def demo_examples_def demo_train_def demo_test_def)

lemma demo_loop:
  "train_loop (demo_env w) demo_train demo_test [0..<N_TRAINING_ITERATIONS] (None, 0, 0) =
     Inr (Some two_class_pipeline, 0.9, 0.8)"
  by (simp add: N_TRAINING_ITERATIONS_def demo_env_def upt_rec)

lemma demo_dump: "joblib_dump (demo_env w) a = (if w then None else Some OSError)"
  by (simp add: demo_env_def)

text \<open>
  Whenever \<open>train_and_save\<close> ends with an exception, the classifier state is the
  one it started with.
\<close>

lemma train_and_save_error_state:
  "train_and_save env self = (self', Some e) \<Longrightarrow> self' = self"
  by (auto simp: train_and_save_def split: sum.splits if_splits prod.splits option.splits)

section \<open>Claims about text normalisation\<close>

text \<open>
  C6. The feature text built by \<open>combine\<close> is the space-joined, trimmed
  concatenation of the cleaned description, the cleaned description again and
  the cleaned merchant; for the description \<^verbatim>\<open>coffee\<close> and the merchant
  \<^verbatim>\<open>Starbucks\<close> it is exactly \<^verbatim>\<open>coffee coffee starbucks\<close>.
\<close>

theorem combine_feature_text:
  "combine description merchant = build_feature_text_spec description merchant \<and>
   combine (lit ''coffee'') (lit ''Starbucks'') = lit ''coffee coffee starbucks''"
proof -
  have "combine description merchant = build_feature_text_spec description merchant"
    by (simp add: combine_def build_feature_text_spec_def Let_def)
  with demo_text show ?thesis by blast
qed

text \<open>The theorem at the example of the claim, read from the design document's side.\<close>

theorem combine_feature_text_witness:
  "build_feature_text_spec (lit ''coffee'') (lit ''Starbucks'') = lit ''coffee coffee starbucks''"
proof -
  from combine_feature_text [of "lit ''coffee''" "lit ''Starbucks''"]
  have "combine (lit ''coffee'') (lit ''Starbucks'') =
          build_feature_text_spec (lit ''coffee'') (lit ''Starbucks'')"
    and "combine (lit ''coffee'') (lit ''Starbucks'') = lit ''coffee coffee starbucks''"
    by blast+
  then show ?thesis by simp
qed

text \<open>
  C7. For every input string, the output of \<open>clean_text\<close> consists of lower-case
  alphanumeric characters and spaces only, never has two spaces in a row, and
  neither starts nor ends with white space; the empty string and every string
  of punctuation characters are cleaned to the empty string.
\<close>

theorem clean_text_output:
  "(\<forall>c \<in> set (clean_text x). is_lower_alnum c \<or> c = 32) \<and>
   (\<forall>i. Suc i < length (clean_text x) \<longrightarrow> \<not> (clean_text x ! i = 32 \<and> clean_text x ! Suc i = 32)) \<and>
   (clean_text x \<noteq> [] \<longrightarrow> \<not> is_space (hd (clean_text x)) \<and> \<not> is_space (last (clean_text x))) \<and>
   clean_text [] = [] \<and>
   (list_all is_punct x \<longrightarrow> clean_text x = [])"
proof -
  have nf: "normal_form (clean_text x)" by (rule clean_text_normal_form)
  then have 1: "\<forall>c \<in> set (clean_text x). is_lower_alnum c \<or> c = 32"
    by (simp add: normal_form_def list_all_iff)
  have 2: "\<forall>i. Suc i < length (clean_text x) \<longrightarrow> \<not> (clean_text x ! i = 32 \<and> clean_text x ! Suc i = 32)"
    using nf nds_index by (simp add: normal_form_def)
  have 3: "clean_text x \<noteq> [] \<longrightarrow> \<not> is_space (hd (clean_text x)) \<and> \<not> is_space (last (clean_text x))"
  proof
    assume ne: "clean_text x \<noteq> []"
    then have "hd (clean_text x) \<in> set (clean_text x)" "last (clean_text x) \<in> set (clean_text x)"
      by auto
    with 1 have "is_lower_alnum (hd (clean_text x)) \<or> hd (clean_text x) = 32"
      "is_lower_alnum (last (clean_text x)) \<or> last (clean_text x) = 32" by auto
    moreover have "hd (clean_text x) \<noteq> 32" "last (clean_text x) \<noteq> 32"
      using nf ne by (auto simp: normal_form_def)
    ultimately show "\<not> is_space (hd (clean_text x)) \<and> \<not> is_space (last (clean_text x))"
      using alnum_not_space by blast
  qed
  have 4: "clean_text [] = []" by (simp add: clean_text_def)
  have 5: "list_all is_punct x \<longrightarrow> clean_text x = []"
    using clean_text_no_alnum [of x] is_punct_lower by (auto simp: list_all_iff)
  from 1 2 3 4 5 show ?thesis by blast
qed

text \<open>
  The theorem at two inputs: a string of punctuation characters, and a string
  with capitals, punctuation and runs of spaces whose cleaned form is not empty.
\<close>

theorem clean_text_output_witness:
  "list_all is_punct (lit ''?!.,;'') \<and> clean_text (lit ''?!.,;'') = [] \<and>
   clean_text (lit ''  Hello,   World!! 42 '') = lit ''hello world 42'' \<and>
   \<not> is_space (hd (clean_text (lit ''  Hello,   World!! 42 ''))) \<and>
   \<not> is_space (last (clean_text (lit ''  Hello,   World!! 42 '')))"
proof -
  have p: "list_all is_punct (lit ''?!.,;'')"
    by (simp add: lit_def is_punct_def)
  have e: "clean_text (lit ''?!.,;'') = []"
    using clean_text_output [of "lit ''?!.,;''"] p by blast
  have v: "clean_text (lit ''  Hello,   World!! 42 '') = lit ''hello world 42''"
    by (simp add: text_defs)
  have n: "clean_text (lit ''  Hello,   World!! 42 '') \<noteq> []"
    unfolding v by (simp add: lit_def)
  have h: "\<not> is_space (hd (clean_text (lit ''  Hello,   World!! 42 ''))) \<and>
           \<not> is_space (last (clean_text (lit ''  Hello,   World!! 42 '')))"
    using clean_text_output [of "lit ''  Hello,   World!! 42 ''"] n by blast
  from p e v h show ?thesis by blast
qed

text \<open>
  C8. \<open>clean_text\<close> is idempotent: cleaning a cleaned string changes nothing.
\<close>

theorem clean_text_idempotent: "clean_text (clean_text x) = clean_text x"
  by (rule normal_form_fixed) (rule clean_text_normal_form)

text \<open>The theorem at a string with capitals, punctuation and runs of spaces.\<close>

theorem clean_text_idempotent_witness:
  "clean_text (clean_text (lit ''  Hello,   World!! 42 '')) = lit ''hello world 42''"
proof -
  have v: "clean_text (lit ''  Hello,   World!! 42 '') = lit ''hello world 42''"
    by (simp add: text_defs)
  from clean_text_idempotent [of "lit ''  Hello,   World!! 42 ''"]
  show ?thesis by (simp only: v)
qed

section \<open>Claims about prediction\<close>

text \<open>
  C1. Let a pipeline be loaded that returns one probability for each of its
  classes, and let the feature text of the description and the merchant be
  non-empty. Then \<open>predict\<close> takes a class of maximum probability as the raw
  prediction and that probability as the raw confidence, multiplies the
  confidence by 0.70 for a feature text of one token and by 0.85 for one of two
  tokens and leaves it as it is for three or more, and returns the catch-all
  label with the discounted confidence when the discounted confidence is below
  0.40, and the raw prediction with the discounted confidence otherwise. In
  particular, a feature text of three or more tokens with raw confidence 0.35
  gives the catch-all label with confidence 0.35.
\<close>

theorem predict_threshold:
  assumes "pipeline self = Some p" and "combine d m \<noteq> []"
    and "predict_proba p (combine d m) = Inr proba"
    and "length proba = length (classes p)" and "classes p \<noteq> []"
  shows "(\<exists>i. i < length proba \<and> proba ! i = Max (set proba) \<and>
             predict self d m =
               (let n = length (py_split (combine d m));
                    raw = Max (set proba);
                    confidence = (if n = 1 then raw * 0.70 else if n = 2 then raw * 0.85 else raw)
                in if confidence < 0.40 then Inr (OTHER, confidence)
                   else Inr (classes p ! i, confidence))) \<and>
         1 \<le> length (py_split (combine d m)) \<and>
         (3 \<le> length (py_split (combine d m)) \<and> Max (set proba) = 0.35 \<longrightarrow>
            predict self d m = Inr (OTHER, 0.35))"
proof -
  let ?n = "length (py_split (combine d m))"
  let ?raw = "Max (set proba)"
  let ?c = "if ?n = 1 then ?raw * 0.70 else if ?n = 2 then ?raw * 0.85 else ?raw"
  have tokens: "1 \<le> ?n" using assms(2) by (rule combine_tokens)
  then have disc: "length_discount ?n ?raw = ?c"
    by (auto simp: length_discount_def)
  from predict_wf [OF assms] obtain i where
    i: "i < length proba" "proba ! i = ?raw"
    and pr: "predict self d m =
             (if length_discount ?n ?raw < CONFIDENCE_THRESHOLD
              then Inr (OTHER, length_discount ?n ?raw)
              else Inr (classes p ! i, length_discount ?n ?raw))"
    by blast
  have pr': "predict self d m = (if ?c < 0.40 then Inr (OTHER, ?c) else Inr (classes p ! i, ?c))"
    using pr unfolding disc by (simp add: CONFIDENCE_THRESHOLD_def)
  have general: "\<exists>i. i < length proba \<and> proba ! i = Max (set proba) \<and>
             predict self d m =
               (let n = length (py_split (combine d m));
                    raw = Max (set proba);
                    confidence = (if n = 1 then raw * 0.70 else if n = 2 then raw * 0.85 else raw)
                in if confidence < 0.40 then Inr (OTHER, confidence)
                   else Inr (classes p ! i, confidence))"
    unfolding Let_def using i pr' by blast
  have particular: "3 \<le> ?n \<and> ?raw = 0.35 \<longrightarrow> predict self d m = Inr (OTHER, 0.35)"
    using pr' by auto
  from general tokens particular show ?thesis by blast
qed

text \<open>
  The theorem at four inputs: three tokens with raw confidence 0.35 (the
  catch-all label with 0.35); one token with raw confidence 0.5, where the
  discount brings the confidence below the threshold and the label is replaced;
  two tokens and three tokens with raw confidence 0.5, where the raw prediction
  is returned.
\<close>

theorem predict_threshold_witness:
  "predict \<lparr>pipeline = Some demo_pipeline\<rparr> (lit ''coffee'') (lit ''Starbucks'') = Inr (OTHER, 0.35) \<and>
   predict \<lparr>pipeline = Some even_pipeline\<rparr> [] (lit ''Uber'') = Inr (OTHER, 0.5 * 0.70) \<and>
   predict \<lparr>pipeline = Some even_pipeline\<rparr> (lit ''Rent'') [] = Inr (lit ''Rent'', 0.5 * 0.85) \<and>
   predict \<lparr>pipeline = Some even_pipeline\<rparr> (lit ''coffee'') (lit ''Starbucks'') = Inr (lit ''Rent'', 0.5)"
proof -
  let ?demo = "\<lparr>pipeline = Some demo_pipeline\<rparr>"
  let ?even = "\<lparr>pipeline = Some even_pipeline\<rparr>"
  let ?pd = "[0.33, 0.35, 0.32] :: real list"
  let ?pe = "[0.2, 0.5, 0.3] :: real list"
  have d1: "pipeline ?demo = Some demo_pipeline" by simp
  have d3: "\<And>t. predict_proba demo_pipeline t = Inr ?pd" by (simp add: demo_pipeline_def)
  have d4: "length ?pd = length (classes demo_pipeline)" by (simp add: demo_pipeline_def)
  have d5: "classes demo_pipeline \<noteq> []" by (simp add: demo_pipeline_def)
  have e1: "pipeline ?even = Some even_pipeline" by simp
  have e3: "\<And>t. predict_proba even_pipeline t = Inr ?pe" by (simp add: even_pipeline_def)
  have e4: "length ?pe = length (classes even_pipeline)" by (simp add: even_pipeline_def)
  have e5: "classes even_pipeline \<noteq> []" by (simp add: even_pipeline_def)
  have n1: "combine [] (lit ''Uber'') \<noteq> []"
    unfolding conjunct1 [OF one_token] by (simp add: lit_def)
  have n2: "combine (lit ''Rent'') [] \<noteq> []"
    unfolding conjunct1 [OF two_tokens] by (simp add: lit_def)
  have n3: "combine (lit ''coffee'') (lit ''Starbucks'') \<noteq> []"
    unfolding demo_text by (simp add: lit_def)
  have t1: "length (py_split (combine [] (lit ''Uber''))) = 1" by (simp add: one_token)
  have t2: "length (py_split (combine (lit ''Rent'') [])) = 2" by (simp add: two_tokens)
  have t3: "length (py_split (combine (lit ''coffee'') (lit ''Starbucks''))) = 3"
    by (simp add: demo_text demo_tokens)
  have rd: "Max (set ?pd) = 0.35" by simp
  have re: "Max (set ?pe) = 0.5" by simp
  have cls: "\<And>i. i < length ?pe \<Longrightarrow> ?pe ! i = 0.5 \<Longrightarrow> classes even_pipeline ! i = lit ''Rent''"
    by (auto simp: even_pipeline_def nth_Cons less_Suc_eq split: nat.splits)
  have a: "predict ?demo (lit ''coffee'') (lit ''Starbucks'') = Inr (OTHER, 0.35)"
    using predict_threshold [OF d1 n3 d3 d4 d5] t3 rd by simp
  have b: "predict ?even [] (lit ''Uber'') = Inr (OTHER, 0.5 * 0.70)"
    using predict_threshold [OF e1 n1 e3 e4 e5] by (auto simp: t1 re)
  from predict_threshold [OF e1 n2 e3 e4 e5] obtain i where
    i: "i < length ?pe" "?pe ! i = 0.5"
      "predict ?even (lit ''Rent'') [] = Inr (classes even_pipeline ! i, 0.5 * 0.85)"
    by (auto simp: t2 re)
  then have c: "predict ?even (lit ''Rent'') [] = Inr (lit ''Rent'', 0.5 * 0.85)"
    using cls by simp
  from predict_threshold [OF e1 n3 e3 e4 e5] obtain j where
    j: "j < length ?pe" "?pe ! j = 0.5"
      "predict ?even (lit ''coffee'') (lit ''Starbucks'') = Inr (classes even_pipeline ! j, 0.5)"
    by (auto simp: t3 re)
  then have d: "predict ?even (lit ''coffee'') (lit ''Starbucks'') = Inr (lit ''Rent'', 0.5)"
    using cls by simp
  from a b c d show ?thesis by blast
qed

text \<open>
  C2. Under the same conditions the confidence returned by \<open>predict\<close> is the
  largest probability multiplied by 0.70 when the feature text has exactly one
  token, multiplied by 0.85 when it has exactly two, and unchanged when it has
  three or more. A non-empty feature text has at least one token, so the three
  cases cover every input.
\<close>

theorem predict_length_discount:
  assumes "pipeline self = Some p" and "combine d m \<noteq> []"
    and "predict_proba p (combine d m) = Inr proba"
    and "length proba = length (classes p)" and "classes p \<noteq> []"
  shows "\<exists>label confidence.
           predict self d m = Inr (label, confidence) \<and>
           1 \<le> length (py_split (combine d m)) \<and>
           (length (py_split (combine d m)) = 1 \<longrightarrow> confidence = Max (set proba) * 0.70) \<and>
           (length (py_split (combine d m)) = 2 \<longrightarrow> confidence = Max (set proba) * 0.85) \<and>
           (3 \<le> length (py_split (combine d m)) \<longrightarrow> confidence = Max (set proba))"
proof -
  let ?n = "length (py_split (combine d m))"
  let ?c = "length_discount ?n (Max (set proba))"
  from predict_wf [OF assms] obtain i where
    pr: "predict self d m =
           (if ?c < CONFIDENCE_THRESHOLD then Inr (OTHER, ?c) else Inr (classes p ! i, ?c))"
    by blast
  then have 1: "\<exists>label. predict self d m = Inr (label, ?c)" by auto
  have 2: "1 \<le> ?n" using assms(2) by (rule combine_tokens)
  have 3: "?n = 1 \<longrightarrow> ?c = Max (set proba) * 0.70" by (simp add: length_discount_def)
  have 4: "?n = 2 \<longrightarrow> ?c = Max (set proba) * 0.85" by (simp add: length_discount_def)
  have 5: "3 \<le> ?n \<longrightarrow> ?c = Max (set proba)" by (simp add: length_discount_def)
  from 1 2 3 4 5 show ?thesis by blast
qed

text \<open>The theorem at feature texts of one, two and three tokens.\<close>

theorem predict_length_discount_witness:
  "length (py_split (combine [] (lit ''Uber''))) = 1 \<and>
   predict \<lparr>pipeline = Some sure_pipeline\<rparr> [] (lit ''Uber'') = Inr (lit ''Rent'', 0.8 * 0.70) \<and>
   length (py_split (combine (lit ''Rent'') [])) = 2 \<and>
   predict \<lparr>pipeline = Some sure_pipeline\<rparr> (lit ''Rent'') [] = Inr (lit ''Rent'', 0.8 * 0.85) \<and>
   3 \<le> length (py_split (combine (lit ''coffee'') (lit ''Starbucks''))) \<and>
   predict \<lparr>pipeline = Some sure_pipeline\<rparr> (lit ''coffee'') (lit ''Starbucks'') = Inr (lit ''Rent'', 0.8)"
proof -
  let ?self = "\<lparr>pipeline = Some sure_pipeline\<rparr>"
  let ?proba = "[0.1, 0.8, 0.1] :: real list"
  have h1: "pipeline ?self = Some sure_pipeline" by simp
  have h3: "\<And>t. predict_proba sure_pipeline t = Inr ?proba" by (simp add: sure_pipeline_def)
  have h4: "length ?proba = length (classes sure_pipeline)" by (simp add: sure_pipeline_def)
  have h5: "classes sure_pipeline \<noteq> []" by (simp add: sure_pipeline_def)
  have r: "Max (set ?proba) = 0.8" by simp
  have n1: "combine [] (lit ''Uber'') \<noteq> []" unfolding conjunct1 [OF one_token] by (simp add: lit_def)
  have n2: "combine (lit ''Rent'') [] \<noteq> []" unfolding conjunct1 [OF two_tokens] by (simp add: lit_def)
  have n3: "combine (lit ''coffee'') (lit ''Starbucks'') \<noteq> []" unfolding demo_text by (simp add: lit_def)
  have t1: "length (py_split (combine [] (lit ''Uber''))) = 1" by (simp add: one_token)
  have t2: "length (py_split (combine (lit ''Rent'') [])) = 2" by (simp add: two_tokens)
  have t3: "3 \<le> length (py_split (combine (lit ''coffee'') (lit ''Starbucks'')))"
    by (simp add: demo_text demo_tokens)
  have v1: "\<And>l c. predict ?self [] (lit ''Uber'') = Inr (l, c) \<Longrightarrow> l = lit ''Rent''"
    by (simp add: predict_def text_defs py_split_def sure_pipeline_def np_argmax_def np_max_def
        length_discount_def CONFIDENCE_THRESHOLD_def)
  have v2: "\<And>l c. predict ?self (lit ''Rent'') [] = Inr (l, c) \<Longrightarrow> l = lit ''Rent''"
    by (simp add: predict_def text_defs py_split_def sure_pipeline_def np_argmax_def np_max_def
        length_discount_def CONFIDENCE_THRESHOLD_def)
  have v3: "\<And>l c. predict ?self (lit ''coffee'') (lit ''Starbucks'') = Inr (l, c) \<Longrightarrow> l = lit ''Rent''"
    by (simp add: predict_def text_defs py_split_def sure_pipeline_def np_argmax_def np_max_def
        length_discount_def CONFIDENCE_THRESHOLD_def)
  have p1: "predict ?self [] (lit ''Uber'') = Inr (lit ''Rent'', 0.8 * 0.70)"
    using predict_length_discount [OF h1 n1 h3 h4 h5] t1 r v1 by auto
  have p2: "predict ?self (lit ''Rent'') [] = Inr (lit ''Rent'', 0.8 * 0.85)"
    using predict_length_discount [OF h1 n2 h3 h4 h5] t2 r v2 by auto
  have p3: "predict ?self (lit ''coffee'') (lit ''Starbucks'') = Inr (lit ''Rent'', 0.8)"
    using predict_length_discount [OF h1 n3 h3 h4 h5] t3 r v3 by auto
  from t1 p1 t2 p2 t3 p3 show ?thesis by blast
qed

text \<open>
  C5. When a pipeline is loaded and the feature text is empty, \<open>predict\<close>
  returns the catch-all label with confidence 0, whatever the pipeline is: the
  result does not depend on \<open>predict_proba\<close>, which is not called. The empty
  description with the empty merchant has empty feature text.
\<close>

theorem predict_empty_text:
  "(pipeline self = Some p \<and> combine d m = [] \<longrightarrow> predict self d m = Inr (OTHER, 0)) \<and>
   combine [] [] = []"
  by (simp add: predict_def combine_def clean_text_def strip_def is_space_def)

text \<open>
  The theorem at the empty description and merchant, with a pipeline whose
  \<open>predict_proba\<close> raises on every input, and at an input of punctuation only.
\<close>

theorem predict_empty_text_witness:
  "combine [] [] = [] \<and>
   predict \<lparr>pipeline = Some failing_pipeline\<rparr> [] [] = Inr (OTHER, 0) \<and>
   combine (lit ''?!'') (lit '' - '') = [] \<and>
   predict \<lparr>pipeline = Some sure_pipeline\<rparr> (lit ''?!'') (lit '' - '') = Inr (OTHER, 0)"
proof -
  have e1: "combine [] [] = []"
    using predict_empty_text by blast
  have e2: "combine (lit ''?!'') (lit '' - '') = []" by (simp add: text_defs)
  have "pipeline \<lparr>pipeline = Some failing_pipeline\<rparr> = Some failing_pipeline" by simp
  with e1 have p1: "predict \<lparr>pipeline = Some failing_pipeline\<rparr> [] [] = Inr (OTHER, 0)"
    using predict_empty_text [of "\<lparr>pipeline = Some failing_pipeline\<rparr>" failing_pipeline "[]" "[]"]
    by blast
  have "pipeline \<lparr>pipeline = Some sure_pipeline\<rparr> = Some sure_pipeline" by simp
  with e2 have p2: "predict \<lparr>pipeline = Some sure_pipeline\<rparr> (lit ''?!'') (lit '' - '') = Inr (OTHER, 0)"
    using predict_empty_text [of "\<lparr>pipeline = Some sure_pipeline\<rparr>" sure_pipeline "lit ''?!''" "lit '' - ''"]
    by blast
  from e1 p1 e2 p2 show ?thesis by blast
qed

text \<open>
  C10. When a pipeline is loaded, every label returned by \<open>predict\<close> is the
  catch-all label \<^verbatim>\<open>Other\<close> or one of the classes of the pipeline, namely a
  class whose probability is the largest.
\<close>

theorem predict_label_in_vocabulary:
  assumes "pipeline self = Some p" and "predict self d m = Inr (label, confidence)"
  shows "label = OTHER \<or>
         (label \<in> set (classes p) \<and>
          (\<exists>proba i. predict_proba p (combine d m) = Inr proba \<and> i < length proba \<and>
             i < length (classes p) \<and> label = classes p ! i \<and> proba ! i = Max (set proba)))"
proof -
  from predict_cases [OF assms] consider
    (empty) "label = OTHER"
  | (model) proba i raw where "predict_proba p (combine d m) = Inr proba" "np_argmax proba = Inr i"
      "i < length (classes p)" "np_max proba = Inr raw"
      "if confidence < CONFIDENCE_THRESHOLD then label = OTHER else label = classes p ! i"
    by blast
  then show ?thesis
  proof cases
    case empty
    then show ?thesis by simp
  next
    case model
    show ?thesis
    proof (cases "confidence < CONFIDENCE_THRESHOLD")
      case True
      with model(5) show ?thesis by simp
    next
      case False
      with model(5) have l: "label = classes p ! i" by simp
      have pne: "proba \<noteq> []" using model(4) by (auto simp: np_max_def)
      from np_argmax_eq [OF pne] model(2) have "i < length proba" "proba ! i = Max (set proba)"
        by auto
      moreover have "label \<in> set (classes p)" using l model(3) by simp
      ultimately show ?thesis using model(1,3) l by blast
    qed
  qed
qed

text \<open>The theorem at an input for which the pipeline is confident.\<close>

theorem predict_label_in_vocabulary_witness:
  "predict \<lparr>pipeline = Some sure_pipeline\<rparr> (lit ''coffee'') (lit ''Starbucks'') = Inr (lit ''Rent'', 0.8) \<and>
   lit ''Rent'' \<noteq> OTHER \<and> lit ''Rent'' \<in> set (classes sure_pipeline)"
proof -
  let ?self = "\<lparr>pipeline = Some sure_pipeline\<rparr>"
  have h1: "pipeline ?self = Some sure_pipeline" by simp
  have h2: "predict ?self (lit ''coffee'') (lit ''Starbucks'') = Inr (lit ''Rent'', 0.8)"
    by (simp add: predict_def text_defs py_split_def sure_pipeline_def np_argmax_def np_max_def
        length_discount_def CONFIDENCE_THRESHOLD_def)
  have h3: "lit ''Rent'' \<noteq> OTHER" by (simp add: lit_def OTHER_def)
  from predict_label_in_vocabulary [OF h1 h2] h3
  have "lit ''Rent'' \<in> set (classes sure_pipeline)" by blast
  with h2 h3 show ?thesis by blast
qed

text \<open>
  C9, as stated, asks for exactly \<open>k\<close> entries for every \<open>k\<close>. With a pipeline
  of two classes and \<open>k = 3\<close>, the default of the parameter,
  \<open>get_top_predictions\<close> returns two entries.
\<close>

theorem get_top_predictions_counterexample:
  "get_top_predictions \<lparr>pipeline = Some two_class_pipeline\<rparr> (lit ''coffee'') (lit ''Starbucks'') 3 =
     Inr [(lit ''Food'', 0.6), (lit ''Rent'', 0.4)] \<and>
   length [(lit ''Food'', 0.6 :: real), (lit ''Rent'', 0.4)] \<noteq> 3"
  by (simp add: get_top_predictions_def two_class_pipeline_def text_defs np_argsort_def
      slice_from_def upt_rec)

text \<open>
  C9, amended. Let a pipeline be loaded. If the feature text is empty,
  \<open>get_top_predictions\<close> returns the single entry of the catch-all label with
  probability 0. Otherwise, if the pipeline returns one probability for each
  class and \<open>k\<close> is at least 1, the result lists classes taken at distinct
  positions, each with the probability the pipeline gave it (no length discount,
  no threshold), in
  non-increasing order of probability, and its length is the smaller of \<open>k\<close>
  and the number of classes: exactly \<open>k\<close> when the pipeline has at least \<open>k\<close>
  classes.
\<close>

theorem get_top_predictions_sorted:
  assumes "pipeline self = Some p"
  shows "(combine d m = [] \<longrightarrow> get_top_predictions self d m k = Inr [(OTHER, 0)]) \<and>
         (combine d m \<noteq> [] \<and> predict_proba p (combine d m) = Inr proba \<and>
          length proba = length (classes p) \<and> 1 \<le> k \<longrightarrow>
            (\<exists>idx. get_top_predictions self d m k = Inr (map (\<lambda>i. (classes p ! i, proba ! i)) idx) \<and>
                   length idx = min (nat k) (length (classes p)) \<and>
                   distinct idx \<and> (\<forall>i \<in> set idx. i < length (classes p)) \<and>
                   sorted_wrt (\<ge>) (map (\<lambda>i. proba ! i) idx)))"
proof (intro conjI impI)
  assume "combine d m = []"
  with assms show "get_top_predictions self d m k = Inr [(OTHER, 0)]"
    by (simp add: get_top_predictions_def)
next
  assume h: "combine d m \<noteq> [] \<and> predict_proba p (combine d m) = Inr proba \<and>
          length proba = length (classes p) \<and> 1 \<le> k"
  let ?idx = "rev (slice_from (- k) (np_argsort proba))"
  from h have k: "1 \<le> k" and len: "length proba = length (classes p)" by auto
  note props = top_indices_props [OF k refl, of proba]
  have bound: "\<forall>i \<in> set ?idx. i < length (classes p)" using props(3) len by simp
  then have "\<not> list_ex (\<lambda>i. length (classes p) \<le> i) ?idx"
    by (auto simp: list_ex_iff)
  then have "get_top_predictions self d m k = Inr (map (\<lambda>i. (classes p ! i, proba ! i)) ?idx)"
    using assms h by (simp add: get_top_predictions_def Let_def)
  moreover have "length ?idx = min (nat k) (length (classes p))" using props(1) len by simp
  ultimately show "\<exists>idx. get_top_predictions self d m k = Inr (map (\<lambda>i. (classes p ! i, proba ! i)) idx) \<and>
                   length idx = min (nat k) (length (classes p)) \<and>
                   distinct idx \<and> (\<forall>i \<in> set idx. i < length (classes p)) \<and>
                   sorted_wrt (\<ge>) (map (\<lambda>i. proba ! i) idx)"
    using props(2,4) bound by blast
qed

text \<open>The theorem at \<open>k = 2\<close> with three classes, and at the empty input.\<close>

theorem get_top_predictions_sorted_witness:
  "get_top_predictions \<lparr>pipeline = Some demo_pipeline\<rparr> (lit ''coffee'') (lit ''Starbucks'') 2 =
     Inr [(lit ''Rent'', 0.35), (lit ''Food'', 0.33)] \<and>
   get_top_predictions \<lparr>pipeline = Some demo_pipeline\<rparr> [] [] 2 = Inr [(OTHER, 0)]"
proof -
  let ?self = "\<lparr>pipeline = Some demo_pipeline\<rparr>"
  let ?proba = "[0.33, 0.35, 0.32] :: real list"
  have h1: "pipeline ?self = Some demo_pipeline" by simp
  have e: "combine [] [] = []" by (simp add: text_defs)
  have a: "get_top_predictions ?self [] [] 2 = Inr [(OTHER, 0)]"
    using get_top_predictions_sorted [OF h1, of "[]" "[]" 2] e by blast
  have h2: "combine (lit ''coffee'') (lit ''Starbucks'') \<noteq> []"
    unfolding demo_text by (simp add: lit_def)
  have h3: "predict_proba demo_pipeline (combine (lit ''coffee'') (lit ''Starbucks'')) = Inr ?proba"
    by (simp add: demo_pipeline_def)
  have h4: "length ?proba = length (classes demo_pipeline)" by (simp add: demo_pipeline_def)
  have h5: "(1::int) \<le> 2" by simp
  from get_top_predictions_sorted [OF h1, of "lit ''coffee''" "lit ''Starbucks''" 2 ?proba] h2 h3 h4 h5
  obtain idx where idx:
    "get_top_predictions ?self (lit ''coffee'') (lit ''Starbucks'') 2 =
       Inr (map (\<lambda>i. (classes demo_pipeline ! i, ?proba ! i)) idx)"
    "length idx = min (nat 2) (length (classes demo_pipeline))" by blast
  have v: "get_top_predictions ?self (lit ''coffee'') (lit ''Starbucks'') 2 =
     Inr [(lit ''Rent'', 0.35), (lit ''Food'', 0.33)]"
    by (simp add: get_top_predictions_def demo_pipeline_def text_defs np_argsort_def
      slice_from_def upt_rec)
  from idx v a show ?thesis by simp
qed

section \<open>Claims about training\<close>

text \<open>
  C4, as stated, says that a failed write leaves the classifier with the best
  pipeline in memory. In the example environment with a disk that cannot be
  written, the five candidates are fitted and the best one is selected, the
  write raises, and \<open>train_and_save\<close> ends with that exception and the
  classifier state it started with: no pipeline. A later \<open>predict\<close> raises
  \<open>RuntimeError\<close>.
\<close>

theorem train_and_save_counterexample:
  "train_and_save (demo_env False) \<lparr>pipeline = None\<rparr> = (\<lparr>pipeline = None\<rparr>, Some OSError) \<and>
   train_loop (demo_env False) demo_train demo_test [0..<N_TRAINING_ITERATIONS] (None, 0, 0) =
     Inr (Some two_class_pipeline, 0.9, 0.8) \<and>
   predict (fst (train_and_save (demo_env False) \<lparr>pipeline = None\<rparr>)) (lit ''coffee'') (lit ''Starbucks'') =
     Inl RuntimeError"
proof -
  have t: "train_and_save (demo_env False) \<lparr>pipeline = None\<rparr> = (\<lparr>pipeline = None\<rparr>, Some OSError)"
    using demo_cols by (simp add: train_and_save_def demo_read demo_split demo_loop demo_dump)
  have p: "predict \<lparr>pipeline = None\<rparr> (lit ''coffee'') (lit ''Starbucks'') = Inl RuntimeError"
    by (simp add: predict_def)
  from t p demo_loop show ?thesis by simp
qed

text \<open>
  C4, amended. Once the dataset is read, the data split, and the loop has
  selected a best pipeline: if writing the artifact raises, \<open>train_and_save\<close>
  ends with that exception and leaves the classifier state as it was, so the
  fitted pipeline is not adopted; if the write succeeds, the in-memory pipeline
  is the best candidate.
\<close>

theorem train_and_save_dump:
  assumes "read_csv env = Inr df"
    and "list_all (\<lambda>c. c \<in> set (columns df)) [lit ''description'', lit ''merchant'', lit ''category'']"
    and "train_test_split env (prepare (rows df)) = Inr (tr, te)"
    and "train_loop env tr te [0..<N_TRAINING_ITERATIONS] (None, 0, 0) = Inr (Some best, acc, cv)"
  shows "(joblib_dump env \<lparr>art_pipeline = best, art_accuracy = acc, art_cv_score = cv\<rparr> = Some e \<longrightarrow>
            train_and_save env self = (self, Some e)) \<and>
         (joblib_dump env \<lparr>art_pipeline = best, art_accuracy = acc, art_cv_score = cv\<rparr> = None \<longrightarrow>
            train_and_save env self = (self\<lparr>pipeline := Some best\<rparr>, None))"
  using assms by (simp add: train_and_save_def)

text \<open>The theorem in the example environment, with and without a writable disk.\<close>

theorem train_and_save_dump_witness:
  "train_and_save (demo_env False) \<lparr>pipeline = None\<rparr> = (\<lparr>pipeline = None\<rparr>, Some OSError) \<and>
   train_and_save (demo_env True) \<lparr>pipeline = None\<rparr> = (\<lparr>pipeline = Some two_class_pipeline\<rparr>, None)"
proof -
  have d1: "joblib_dump (demo_env False) \<lparr>art_pipeline = two_class_pipeline, art_accuracy = 0.9, art_cv_score = 0.8\<rparr> = Some OSError"
    by (simp add: demo_dump)
  have d2: "joblib_dump (demo_env True) \<lparr>art_pipeline = two_class_pipeline, art_accuracy = 0.9, art_cv_score = 0.8\<rparr> = None"
    by (simp add: demo_dump)
  from train_and_save_dump [OF demo_read demo_cols demo_split demo_loop, of False OSError "\<lparr>pipeline = None\<rparr>"] d1
  have a: "train_and_save (demo_env False) \<lparr>pipeline = None\<rparr> = (\<lparr>pipeline = None\<rparr>, Some OSError)"
    by blast
  from train_and_save_dump [OF demo_read demo_cols demo_split demo_loop, of True OSError "\<lparr>pipeline = None\<rparr>"] d2
  have b: "train_and_save (demo_env True) \<lparr>pipeline = None\<rparr> = (\<lparr>pipeline = Some two_class_pipeline\<rparr>, None)"
    by simp
  from a b show ?thesis by blast
qed

end
